theory Spec2Isabelle
  imports Complex_Main
begin

section \<open>The simulation core of rocket\_tool.py\<close>

text \<open>
  A shallow embedding of \<^verbatim>\<open>interp_thrust\<close>, \<^verbatim>\<open>check_conditions\<close>,
  \<^verbatim>\<open>run_events\<close> and \<^verbatim>\<open>simulate_flight\<close>.

  Numbers: Python's floats (and the ints of the motor presets) are read as real numbers,
  every literal as the decimal that is written and \<^verbatim>\<open>math.pi\<close> as \<open>pi\<close>. Rounding,
  overflow and NaN are therefore outside the model. Three things differ in the program:
  the value of an arithmetic expression is the rounded one; \<^verbatim>\<open>velocity**2\<close> raises
  \<^verbatim>\<open>OverflowError\<close> once the velocity is beyond about 1.3e154, and a NaN altitude ends
  the loop, where the model goes on to the cutoff; and the time, summed in floats, passes
  300 s one step earlier than the exact sum does.

  Errors: the only exception the model raises is \<^verbatim>\<open>ZeroDivisionError\<close> (Python raises it
  for \<open>/\<close> on ints and on floats alike). Conditions hold numbers: a threshold that is
  not a number, which raises \<^verbatim>\<open>TypeError\<close> at the comparison, is outside the model.

  Objects: the events of a configuration are dict objects. \<^verbatim>\<open>config.events.copy()\<close>
  copies the list, not the dicts, and \<^verbatim>\<open>run_events\<close> writes the key
  \<^verbatim>\<open>"_triggered"\<close> into the dicts; so the dicts live in an explicit store, and
  a list of events is a list of addresses.
\<close>

datatype error = ZeroDivisionError

subsection \<open>interp\_thrust\<close>

text \<open>A thrust curve is a list of (time, thrust) pairs.\<close>

type_synonym thrust_curve = "(real \<times> real) list"

text \<open>
  The \<^verbatim>\<open>for i in range(len(thrust_curve)-1)\<close> loop: the consecutive pairs from
  the front. \<open>Inr None\<close> means the loop ran to its end without returning.
\<close>

fun interp_scan :: "thrust_curve \<Rightarrow> real \<Rightarrow> error + real option" where
  "interp_scan ((t0, thrust0) # (t1, thrust1) # rest) t =
     (if t0 \<le> t \<and> t \<le> t1 then
        (if t1 - t0 = 0 then Inl ZeroDivisionError
         else Inr (Some (thrust0 + (thrust1 - thrust0) * (t - t0) / (t1 - t0))))
      else interp_scan ((t1, thrust1) # rest) t)"
| "interp_scan [p] t = Inr None"
| "interp_scan [] t = Inr None"

definition interp_thrust :: "thrust_curve \<Rightarrow> real \<Rightarrow> error + real" where
  "interp_thrust thrust_curve t =
     (if thrust_curve = [] \<or> length thrust_curve < 2 then Inr 0
      else (case interp_scan thrust_curve t of
              Inl e \<Rightarrow> Inl e
            | Inr (Some thrust) \<Rightarrow> Inr thrust
            | Inr None \<Rightarrow>
                (if t > fst (last thrust_curve) then Inr 0
                 else Inr (snd (hd thrust_curve)))))"

subsection \<open>Physics constants\<close>

definition GRAVITY :: real where
  "GRAVITY = 9.81"

definition AIR_DENSITY :: real where
  "AIR_DENSITY = 1.225"

subsection \<open>MissionConfig and the event objects\<close>

type_synonym addr = nat

text \<open>
  An event dict: the keys \<^verbatim>\<open>"time"\<close> and \<^verbatim>\<open>"type"\<close>, the key
  \<^verbatim>\<open>"condition"\<close> (its items in order; \<open>None\<close> when the key is absent) and the key
  \<^verbatim>\<open>"_triggered"\<close> (\<open>None\<close> when the key is absent).
\<close>

record event =
  ev_time :: real
  ev_type :: string
  ev_condition :: "(string \<times> real) list option"
  ev_triggered :: "bool option"

type_synonym store = "addr \<Rightarrow> event"

text \<open>
  \<^verbatim>\<open>motor_params\<close>: of its keys \<^verbatim>\<open>simulate_flight\<close> reads \<^verbatim>\<open>"mass"\<close> and
  \<^verbatim>\<open>"thrust_curve"\<close>, each with a default when the key is absent.
\<close>

record motor_params =
  mp_mass :: "real option"
  mp_thrust_curve :: "thrust_curve option"

text \<open>
  \<^verbatim>\<open>MissionConfig\<close>: the attributes \<^verbatim>\<open>simulate_flight\<close> reads. The attribute
  \<^verbatim>\<open>motor\<close>, the preset's name, is not read and is left out. \<^verbatim>\<open>events\<close> is the
  list of the addresses of the event dicts.
\<close>

record mission_config =
  name :: string
  rocket_mass :: real
  rocket_diameter :: real
  drag_coefficient :: real
  motor_params :: motor_params
  payload_mass :: real
  events :: "addr list"

text \<open>The state dict handed to the event evaluator; a sample of the output has the same keys
  (\<^verbatim>\<open>time\<close>, \<^verbatim>\<open>altitude\<close>, \<^verbatim>\<open>velocity\<close>, \<^verbatim>\<open>acceleration\<close>).\<close>

record flight_state =
  st_time :: real
  st_altitude :: real
  st_velocity :: real
  st_acceleration :: real

subsection \<open>Advanced event scripting\<close>

text \<open>The \<^verbatim>\<open>for cond, val in conditions.items()\<close> loop.\<close>

fun check_items :: "(string \<times> real) list \<Rightarrow> flight_state \<Rightarrow> bool" where
  "check_items [] state = True"
| "check_items ((cond, val) # rest) state =
     (if cond = ''altitude_gt'' \<and> st_altitude state \<le> val then False
      else if cond = ''altitude_lt'' \<and> st_altitude state \<ge> val then False
      else if cond = ''time_gt'' \<and> st_time state \<le> val then False
      else if cond = ''time_lt'' \<and> st_time state \<ge> val then False
      else check_items rest state)"

definition check_conditions :: "(string \<times> real) list \<Rightarrow> flight_state \<Rightarrow> bool" where
  "check_conditions conditions state =
     (if conditions = [] then True else check_items conditions state)"

text \<open>\<^verbatim>\<open>ev.get("_triggered", False)\<close> and \<^verbatim>\<open>ev.get("condition", {})\<close>.\<close>

definition get_triggered :: "event \<Rightarrow> bool" where
  "get_triggered ev = (case ev_triggered ev of None \<Rightarrow> False | Some b \<Rightarrow> b)"

definition get_condition :: "event \<Rightarrow> (string \<times> real) list" where
  "get_condition ev = (case ev_condition ev of None \<Rightarrow> [] | Some c \<Rightarrow> c)"

text \<open>
  \<^verbatim>\<open>run_events\<close>: the list of the events that fire, in the order met, and the store
  after the writes of \<^verbatim>\<open>ev["_triggered"] = True\<close>.
\<close>

fun run_events :: "addr list \<Rightarrow> flight_state \<Rightarrow> store \<Rightarrow> addr list \<times> store" where
  "run_events [] state h = ([], h)"
| "run_events (ev # evs) state h =
     (if \<not> get_triggered (h ev) \<and> st_time state \<ge> ev_time (h ev) then
        (if check_conditions (get_condition (h ev)) state then
           (let (triggered, h') =
                  run_events evs state (h(ev := (h ev)\<lparr>ev_triggered := Some True\<rparr>))
            in (ev # triggered, h'))
         else run_events evs state h)
      else run_events evs state h)"

subsection \<open>Simulation with drag and event scripting\<close>

definition dt :: real where
  "dt = 0.05"

text \<open>What \<^verbatim>\<open>simulate_flight\<close> prints.\<close>

datatype printed =
    Simulating string
  | EventTriggered real string
  | TimeoutReached

text \<open>The drag of one step, from the velocity, the drag coefficient and the area.\<close>

definition drag_force :: "real \<Rightarrow> real \<Rightarrow> real \<Rightarrow> real" where
  "drag_force velocity drag_coeff area =
     0.5 * AIR_DENSITY * velocity\<^sup>2 * drag_coeff * area * (if velocity > 0 then 1 else - 1)"

text \<open>The acceleration of one step; the division raises when the mass is zero.\<close>

definition accel_of :: "real \<Rightarrow> real \<Rightarrow> real \<Rightarrow> error + real" where
  "accel_of thrust drag mass =
     (if mass = 0 then Inl ZeroDivisionError
      else Inr ((thrust - drag - mass * GRAVITY) / mass))"

text \<open>
  The \<^verbatim>\<open>while altitude >= 0\<close> loop. The variables that change are the time, the
  velocity, the altitude, the samples, the printed lines and the store; the loop ends
  by its condition or by the \<^verbatim>\<open>break\<close> of the safety cutoff. The time left to
  the cutoff, counted in steps of \<open>dt\<close>, is the measure of its termination.
\<close>

function sim_loop ::
  "thrust_curve \<Rightarrow> real \<Rightarrow> real \<Rightarrow> real \<Rightarrow> addr list \<Rightarrow>
   real \<Rightarrow> real \<Rightarrow> real \<Rightarrow> flight_state list \<Rightarrow> printed list \<Rightarrow> store \<Rightarrow>
   error + (flight_state list \<times> printed list \<times> store)" where
  "sim_loop thrust_curve mass drag_coeff area evs t velocity altitude data out h =
     (if altitude \<ge> 0 then
        (case interp_thrust thrust_curve t of
           Inl e \<Rightarrow> Inl e
         | Inr thrust \<Rightarrow>
             (case accel_of thrust (drag_force velocity drag_coeff area) mass of
                Inl e \<Rightarrow> Inl e
              | Inr accel \<Rightarrow>
                  (let velocity' = velocity + accel * dt;
                       altitude' = altitude + velocity' * dt;
                       altitude'' = (if altitude' < 0 then 0 else altitude');
                       t' = t + dt;
                       state = \<lparr>st_time = t', st_altitude = altitude'', st_velocity = velocity',
                                st_acceleration = accel\<rparr>;
                       (triggered_events, h') = run_events evs state h;
                       out' = out @ map (\<lambda>ev. EventTriggered t' (ev_type (h' ev))) triggered_events;
                       data' = data @ [state]
                   in if t' > 300 then Inr (data', out' @ [TimeoutReached], h')
                      else sim_loop thrust_curve mass drag_coeff area evs
                             t' velocity' altitude'' data' out' h')))
      else Inr (data, out, h))"
  by pat_completeness auto
termination
  apply (relation "measure (\<lambda>(thrust_curve, mass, drag_coeff, area, evs, t, velocity, altitude, data, out, h).
                    nat \<lceil>(300 - t) * 20\<rceil>)")
   apply simp
  apply (simp add: dt_def)
  apply linarith
  done

declare sim_loop.simps [simp del]

text \<open>
  \<^verbatim>\<open>simulate_flight\<close>, on a configuration and the store its events live in: an
  error, or the samples with the printed lines and the store the run leaves behind.
  \<^verbatim>\<open>config.events.copy()\<close> is the same list of addresses.
\<close>

definition simulate_flight ::
  "mission_config \<Rightarrow> store \<Rightarrow> error + (flight_state list \<times> printed list \<times> store)" where
  "simulate_flight config h =
     (let t = 0;
          velocity = 0;
          altitude = 0;
          mass = rocket_mass config
                 + (case mp_mass (motor_params config) of None \<Rightarrow> 0 | Some m \<Rightarrow> m)
                 + payload_mass config;
          radius = rocket_diameter config / 2;
          area = pi * radius\<^sup>2;
          drag_coeff = drag_coefficient config;
          thrust_curve = (case mp_thrust_curve (motor_params config) of None \<Rightarrow> [] | Some c \<Rightarrow> c);
          data = [];
          evs = events config
      in sim_loop thrust_curve mass drag_coeff area evs t velocity altitude data
           [Simulating (name config)] h)"

section \<open>Notions for stating the properties\<close>

text \<open>
  The definitions of this section are not code of the program: they name what the
  statements below talk about.
\<close>

subsection \<open>Thrust curves\<close>

text \<open>No two consecutive control points have the same time.\<close>

fun no_repeated_time :: "thrust_curve \<Rightarrow> bool" where
  "no_repeated_time ((t0, thrust0) # (t1, thrust1) # rest) =
     (t0 \<noteq> t1 \<and> no_repeated_time ((t1, thrust1) # rest))"
| "no_repeated_time [p] = True"
| "no_repeated_time [] = True"

subsection \<open>Configurations\<close>

text \<open>
  The locals \<^verbatim>\<open>mass\<close> and \<^verbatim>\<open>thrust_curve\<close> of \<^verbatim>\<open>simulate_flight\<close>, as
  functions of the configuration.
\<close>

definition effective_mass :: "mission_config \<Rightarrow> real" where
  "effective_mass config =
     rocket_mass config
     + (case mp_mass (motor_params config) of None \<Rightarrow> 0 | Some m \<Rightarrow> m)
     + payload_mass config"

definition config_thrust_curve :: "mission_config \<Rightarrow> thrust_curve" where
  "config_thrust_curve config =
     (case mp_thrust_curve (motor_params config) of None \<Rightarrow> [] | Some c \<Rightarrow> c)"

text \<open>The samples a call returned; none when it raised.\<close>

definition samples_of :: "error + (flight_state list \<times> printed list \<times> store) \<Rightarrow> flight_state list" where
  "samples_of r = (case r of Inl e \<Rightarrow> [] | Inr (data, out, h) \<Rightarrow> data)"

subsection \<open>Events\<close>

text \<open>
  One constraint of a condition, as the specification reads it: the four known keys
  compare the altitude or the time with the threshold, any other key holds.
\<close>

definition constraint_holds :: "string \<Rightarrow> real \<Rightarrow> flight_state \<Rightarrow> bool" where
  "constraint_holds cond val state =
     (if cond = ''altitude_gt'' then st_altitude state > val
      else if cond = ''altitude_lt'' then st_altitude state < val
      else if cond = ''time_gt'' then st_time state > val
      else if cond = ''time_lt'' then st_time state < val
      else True)"

text \<open>
  The specification's firing rule for the event at an address: not yet fired, its fire
  time reached, every constraint of its condition true.
\<close>

definition should_fire :: "store \<Rightarrow> flight_state \<Rightarrow> addr \<Rightarrow> bool" where
  "should_fire h state ev =
     (\<not> get_triggered (h ev) \<and> ev_time (h ev) \<le> st_time state
      \<and> list_all (\<lambda>(cond, val). constraint_holds cond val state) (get_condition (h ev)))"

text \<open>
  The calls of the event evaluator in one run: one call per state, in order, each on the
  store the call before left. The result lists what each call returned.
\<close>

fun run_events_calls :: "addr list \<Rightarrow> flight_state list \<Rightarrow> store \<Rightarrow> addr list list \<times> store" where
  "run_events_calls evs [] h = ([], h)"
| "run_events_calls evs (state # states) h =
     (let (triggered, h') = run_events evs state h;
          (rest, h'') = run_events_calls evs states h'
      in (triggered # rest, h''))"

text \<open>The lines one step prints for the events that fired, and those of a whole run.\<close>

definition event_lines :: "store \<Rightarrow> flight_state \<Rightarrow> addr list \<Rightarrow> printed list" where
  "event_lines h state triggered =
     map (\<lambda>ev. EventTriggered (st_time state) (ev_type (h ev))) triggered"

definition run_lines :: "store \<Rightarrow> flight_state list \<Rightarrow> addr list list \<Rightarrow> printed list" where
  "run_lines h states trigs =
     concat (map (\<lambda>(state, triggered). event_lines h state triggered) (zip states trigs))"

subsection \<open>One iteration of the loop\<close>

text \<open>
  The sample one iteration appends, given the thrust it looked up and a mass that is
  not zero.
\<close>

definition step_sample :: "real \<Rightarrow> real \<Rightarrow> real \<Rightarrow> real \<Rightarrow> real \<Rightarrow> real \<Rightarrow> real \<Rightarrow> flight_state" where
  "step_sample thrust mass drag_coeff area t velocity altitude =
     (let accel = (thrust - drag_force velocity drag_coeff area - mass * GRAVITY) / mass;
          velocity' = velocity + accel * dt;
          altitude' = altitude + velocity' * dt
      in \<lparr>st_time = t + dt, st_altitude = (if altitude' < 0 then 0 else altitude'),
          st_velocity = velocity', st_acceleration = accel\<rparr>)"

subsection \<open>Concrete inputs\<close>

text \<open>
  The configuration \<^verbatim>\<open>MissionConfig()\<close> constructs: the motor preset
  \<^verbatim>\<open>"Custom"\<close> is the empty dict and there are no events.
\<close>

definition default_config :: mission_config where
  "default_config =
     \<lparr>name = ''NewMission'', rocket_mass = 0.5, rocket_diameter = 0.05,
      drag_coefficient = 0.75, motor_params = \<lparr>mp_mass = None, mp_thrust_curve = None\<rparr>,
      payload_mass = 0, events = []\<rparr>"

text \<open>
  The end-to-end scenario of the specification: effective mass 0.5 kg, diameter 0.05 m,
  drag coefficient 0.75, two-point thrust curve from 12 N at 0 s to 0 N at 1.6 s.
\<close>

definition scenario_config :: mission_config where
  "scenario_config =
     default_config\<lparr>motor_params := \<lparr>mp_mass = None, mp_thrust_curve = Some [(0, 12), (1.6, 0)]\<rparr>\<rparr>"

text \<open>
  A store whose event objects are all the dict
  \<^verbatim>\<open>{"time": 0.0, "type": "deploy_parachute", "condition": {}}\<close>, as
  \<^verbatim>\<open>plan_mission\<close> builds them, and the default configuration with the event at
  address 0 as its one event.
\<close>

definition parachute_store :: store where
  "parachute_store =
     (\<lambda>a. \<lparr>ev_time = 0, ev_type = ''deploy_parachute'', ev_condition = Some [],
            ev_triggered = None\<rparr>)"

definition parachute_config :: mission_config where
  "parachute_config = default_config\<lparr>events := [0]\<rparr>"

text \<open>The store after the event at address 0 has fired.\<close>

definition parachute_store_fired :: store where
  "parachute_store_fired = parachute_store(0 := (parachute_store 0)\<lparr>ev_triggered := Some True\<rparr>)"

subsection \<open>Trajectories\<close>

text \<open>
  A list of samples is the trajectory from a time, a velocity and an altitude when each
  sample is the one an iteration appends from the sample before it, the thrust lookup
  raising nothing on the way.
\<close>

fun trajectory ::
  "thrust_curve \<Rightarrow> real \<Rightarrow> real \<Rightarrow> real \<Rightarrow> real \<Rightarrow> real \<Rightarrow> real \<Rightarrow> flight_state list \<Rightarrow> bool" where
  "trajectory thrust_curve mass drag_coeff area t velocity altitude [] = True"
| "trajectory thrust_curve mass drag_coeff area t velocity altitude (s # rest) =
     (case interp_thrust thrust_curve t of
        Inl e \<Rightarrow> False
      | Inr thrust \<Rightarrow>
          s = step_sample thrust mass drag_coeff area t velocity altitude
          \<and> trajectory thrust_curve mass drag_coeff area (t + dt) (st_velocity s) (st_altitude s) rest)"

subsection \<open>A bound for the descent of the end-to-end scenario\<close>

text \<open>
  An upper bound of the altitude after \<open>n\<close> more steps, from upper bounds \<open>bv\<close> and
  \<open>ba\<close> of the velocity and the altitude and the number \<open>r\<close> of steps the motor still
  burns: while it burns the velocity gains at most 2 m/s a step, afterwards it loses at
  least 0.245 m/s a step until it is below -46 m/s.
\<close>

fun descent_bound :: "nat \<Rightarrow> nat \<Rightarrow> real \<Rightarrow> real \<Rightarrow> real" where
  "descent_bound 0 r bv ba = ba"
| "descent_bound (Suc n) (Suc r) bv ba = descent_bound n r (bv + 2) (ba + (bv + 2) / 20)"
| "descent_bound (Suc n) 0 bv ba =
     descent_bound n 0 (max (bv - 49 / 200) (- 46)) (ba + max (bv - 49 / 200) (- 46) / 20)"

section \<open>Properties of the thrust lookup\<close>

lemma interp_scan_before:
  "sorted (map fst c) \<Longrightarrow> c \<noteq> [] \<Longrightarrow> t < fst (hd c) \<Longrightarrow> interp_scan c t = Inr None"
proof (induction c t rule: interp_scan.induct)
  case (1 t0 thrust0 t1 thrust1 rest t)
  then show ?case by auto
qed simp_all

lemma interp_thrust_before:
  assumes "2 \<le> length c" "sorted (map fst c)" "t < fst (hd c)"
  shows "interp_thrust c t = Inr (snd (hd c))"
proof -
  have ne: "c \<noteq> []" using assms(1) by auto
  have "fst (hd c) \<le> fst (last c)"
    using assms(2) ne by (cases c) (auto simp: last_ConsR)
  then have "\<not> fst (last c) < t" using assms(3) by simp
  then show ?thesis
    using assms(1) ne interp_scan_before[OF assms(2) ne assms(3)]
    by (simp add: interp_thrust_def)
qed

lemma interp_scan_no_error:
  "no_repeated_time c \<Longrightarrow> \<exists>r. interp_scan c t = Inr r"
  by (induction c t rule: interp_scan.induct) auto

lemma interp_thrust_no_error:
  assumes "no_repeated_time c"
  shows "\<exists>thrust. interp_thrust c t = Inr thrust"
proof -
  from interp_scan_no_error[OF assms] obtain r where "interp_scan c t = Inr r" by blast
  then show ?thesis
    by (cases r) (simp_all add: interp_thrust_def)
qed


section \<open>Properties of the event evaluator\<close>

lemma check_items_iff:
  "check_items c state = list_all (\<lambda>(cond, val). constraint_holds cond val state) c"
  by (induction c state rule: check_items.induct) (auto simp: constraint_holds_def)

lemma check_conditions_iff:
  "check_conditions c state = list_all (\<lambda>(cond, val). constraint_holds cond val state) c"
  by (simp add: check_conditions_def check_items_iff)

lemma run_events_Cons_fire:
  assumes "should_fire h state ev"
  shows "run_events (ev # evs) state h =
           (ev # fst (run_events evs state (h(ev := (h ev)\<lparr>ev_triggered := Some True\<rparr>))),
            snd (run_events evs state (h(ev := (h ev)\<lparr>ev_triggered := Some True\<rparr>))))"
  using assms by (simp add: should_fire_def check_conditions_iff split_beta)

lemma run_events_Cons_skip:
  assumes "\<not> should_fire h state ev"
  shows "run_events (ev # evs) state h = run_events evs state h"
  using assms by (auto simp add: should_fire_def check_conditions_iff)

lemma run_events_store:
  "snd (run_events evs state h) a =
     (if a \<in> set (fst (run_events evs state h)) then (h a)\<lparr>ev_triggered := Some True\<rparr> else h a)"
proof (induction evs arbitrary: h)
  case Nil
  then show ?case by simp
next
  case (Cons ev evs)
  show ?case
  proof (cases "should_fire h state ev")
    case True
    let ?h = "h(ev := (h ev)\<lparr>ev_triggered := Some True\<rparr>)"
    have IH: "snd (run_events evs state ?h) a =
       (if a \<in> set (fst (run_events evs state ?h)) then (?h a)\<lparr>ev_triggered := Some True\<rparr> else ?h a)"
      by (rule Cons.IH)
    show ?thesis
      unfolding run_events_Cons_fire[OF True] fst_conv snd_conv
      by (simp add: IH)
  next
    case False
    show ?thesis
      unfolding run_events_Cons_skip[OF False] by (rule Cons.IH)
  qed
qed

lemma run_events_member:
  "a \<in> set (fst (run_events evs state h)) \<longleftrightarrow> a \<in> set evs \<and> should_fire h state a"
proof (induction evs arbitrary: h)
  case Nil
  then show ?case by simp
next
  case (Cons ev evs)
  let ?h = "h(ev := (h ev)\<lparr>ev_triggered := Some True\<rparr>)"
  have fired: "\<not> should_fire ?h state ev"
    by (simp add: should_fire_def get_triggered_def)
  have same: "should_fire ?h state b = should_fire h state b" if "b \<noteq> ev" for b
    using that by (simp add: should_fire_def)
  show ?case
  proof (cases "should_fire h state ev")
    case True
    have IH: "a \<in> set (fst (run_events evs state ?h)) \<longleftrightarrow> a \<in> set evs \<and> should_fire ?h state a"
      by (rule Cons.IH)
    show ?thesis
      unfolding run_events_Cons_fire[OF True] fst_conv
      using IH True fired same by (cases "a = ev") simp_all
  next
    case False
    have IH: "a \<in> set (fst (run_events evs state h)) \<longleftrightarrow> a \<in> set evs \<and> should_fire h state a"
      by (rule Cons.IH)
    show ?thesis
      unfolding run_events_Cons_skip[OF False]
      using IH False by (cases "a = ev") simp_all
  qed
qed




lemma run_events_none:
  assumes "\<forall>a\<in>set evs. \<not> should_fire h state a"
  shows "run_events evs state h = ([], h)"
proof -
  have e: "fst (run_events evs state h) = []"
  proof (rule ccontr)
    assume "fst (run_events evs state h) \<noteq> []"
    then obtain a where "a \<in> set (fst (run_events evs state h))"
      by (cases "fst (run_events evs state h)") auto
    then have "a \<in> set evs \<and> should_fire h state a"
      by (simp only: run_events_member)
    with assms show False by blast
  qed
  then have "snd (run_events evs state h) = h"
    by (intro ext) (simp add: run_events_store)
  with e show ?thesis by (simp add: prod_eq_iff)
qed


lemma run_events_type: "ev_type (snd (run_events evs state h) a) = ev_type (h a)"
  by (simp add: run_events_store)

lemma event_lines_run_events:
  "event_lines (snd (run_events evs state h)) = event_lines h"
  by (intro ext) (simp add: event_lines_def run_events_type)

lemma run_lines_run_events:
  "run_lines (snd (run_events evs state h)) = run_lines h"
  by (intro ext) (simp add: run_lines_def event_lines_run_events)

lemma run_lines_Cons:
  "run_lines h (s # states) (tr # trigs) = event_lines h s tr @ run_lines h states trigs"
  by (simp add: run_lines_def)

lemma run_events_calls_Cons:
  "run_events_calls evs (s # states) h =
     (fst (run_events evs s h) # fst (run_events_calls evs states (snd (run_events evs s h))),
      snd (run_events_calls evs states (snd (run_events evs s h))))"
  by (simp add: split_beta)



section \<open>Properties of the simulation loop\<close>

lemma sim_loop_step:
  assumes "0 \<le> altitude" "interp_thrust thrust_curve t = Inr thrust" "mass \<noteq> 0"
  shows "sim_loop thrust_curve mass drag_coeff area evs t velocity altitude data out h =
    (let state = step_sample thrust mass drag_coeff area t velocity altitude;
         r = run_events evs state h;
         out' = out @ event_lines (snd r) state (fst r)
     in if t + dt > 300 then Inr (data @ [state], out' @ [TimeoutReached], snd r)
        else sim_loop thrust_curve mass drag_coeff area evs (t + dt) (st_velocity state)
               (st_altitude state) (data @ [state]) out' (snd r))"
  by (subst sim_loop.simps)
     (simp add: assms accel_of_def step_sample_def Let_def split_beta event_lines_def)

lemma sim_loop_Inr_cases:
  assumes "sim_loop thrust_curve mass drag_coeff area evs t velocity altitude data out h = Inr r"
    and "0 \<le> altitude"
  shows "mass \<noteq> 0 \<and> (\<exists>thrust. interp_thrust thrust_curve t = Inr thrust)"
  using assms
  by (subst (asm) sim_loop.simps) (auto simp: accel_of_def split: sum.splits if_splits)

lemma step_sample_simps:
  "st_time (step_sample thrust mass drag_coeff area t velocity altitude) = t + dt"
  "0 \<le> st_altitude (step_sample thrust mass drag_coeff area t velocity altitude)"
  by (simp_all add: step_sample_def Let_def)

lemma grid_next: "real k * dt + dt = real (Suc k) * dt"
  by (simp add: algebra_simps)

lemma grid_cutoff: "k \<le> 6000 \<Longrightarrow> (300 < real (Suc k) * dt) = (k = 6000)"
proof -
  assume "k \<le> 6000"
  have "(300 < real (Suc k) * dt) = (6000 < real (Suc k))"
    by (simp add: dt_def)
  also have "\<dots> = (6000 < Suc k)"
    by (metis of_nat_less_iff of_nat_numeral)
  finally show ?thesis using \<open>k \<le> 6000\<close> by auto
qed

lemma sim_loop_result:
  "k \<le> 6000 \<Longrightarrow> 0 \<le> altitude \<Longrightarrow>
   sim_loop thrust_curve mass drag_coeff area evs (real k * dt) velocity altitude data out h
     = Inr (data', out', h') \<Longrightarrow>
   \<exists>new. data' = data @ new
     \<and> map st_time new = map (\<lambda>j. real j * dt) [Suc k..<6002]
     \<and> list_all (\<lambda>s. 0 \<le> st_altitude s) new
     \<and> h' = snd (run_events_calls evs new h)
     \<and> out' = out @ run_lines h new (fst (run_events_calls evs new h)) @ [TimeoutReached]"
proof (induction "6000 - k" arbitrary: k velocity altitude data out h)
  case 0
  then have k: "k = 6000" by simp
  from sim_loop_Inr_cases[OF "0.prems"(3) "0.prems"(2)]
  obtain thrust where m: "mass \<noteq> 0" and th: "interp_thrust thrust_curve (real k * dt) = Inr thrust"
    by blast
  define state where "state = step_sample thrust mass drag_coeff area (real k * dt) velocity altitude"
  have st: "st_time state = real (Suc k) * dt" "0 \<le> st_altitude state"
    by (simp_all add: state_def step_sample_simps grid_next del: of_nat_Suc)
  have "sim_loop thrust_curve mass drag_coeff area evs (real k * dt) velocity altitude data out h
        = Inr (data @ [state], (out @ event_lines h state (fst (run_events evs state h))) @ [TimeoutReached],
               snd (run_events evs state h))"
    unfolding sim_loop_step[OF "0.prems"(2) th m] Let_def state_def[symmetric] grid_next
    using grid_cutoff[of k] k by (simp add: event_lines_run_events del: of_nat_Suc)
  with "0.prems"(3) have r: "data' = data @ [state]"
     "out' = (out @ event_lines h state (fst (run_events evs state h))) @ [TimeoutReached]"
     "h' = snd (run_events evs state h)"
    by simp_all
  have up: "[Suc k..<6002] = [Suc k]"
    unfolding k by (simp add: upt_rec)
  show ?case
    apply (rule exI[of _ "[state]"])
    using r st up
    by (simp add: split_beta run_lines_Cons run_lines_def del: of_nat_Suc)
next
  case (Suc n)
  then have k: "k < 6000" "Suc k \<le> 6000" "n = 6000 - Suc k" by simp_all
  from sim_loop_Inr_cases[OF Suc.prems(3) Suc.prems(2)]
  obtain thrust where m: "mass \<noteq> 0" and th: "interp_thrust thrust_curve (real k * dt) = Inr thrust"
    by blast
  define state where "state = step_sample thrust mass drag_coeff area (real k * dt) velocity altitude"
  define h1 where "h1 = snd (run_events evs state h)"
  define tr where "tr = fst (run_events evs state h)"
  have st: "st_time state = real (Suc k) * dt" "0 \<le> st_altitude state"
    by (simp_all add: state_def step_sample_simps grid_next del: of_nat_Suc)
  have "sim_loop thrust_curve mass drag_coeff area evs (real k * dt) velocity altitude data out h
        = sim_loop thrust_curve mass drag_coeff area evs (real (Suc k) * dt) (st_velocity state)
            (st_altitude state) (data @ [state]) (out @ event_lines h state tr) h1"
    unfolding sim_loop_step[OF Suc.prems(2) th m] Let_def state_def[symmetric] grid_next
      h1_def tr_def
    using grid_cutoff[of k] k by (simp add: event_lines_run_events del: of_nat_Suc)
  with Suc.prems(3) have "sim_loop thrust_curve mass drag_coeff area evs (real (Suc k) * dt)
      (st_velocity state) (st_altitude state) (data @ [state]) (out @ event_lines h state tr) h1
      = Inr (data', out', h')"
    by simp
  from Suc.hyps(1)[OF k(3) k(2) st(2) this]
  obtain new where new: "data' = (data @ [state]) @ new"
     "map st_time new = map (\<lambda>j. real j * dt) [Suc (Suc k)..<6002]"
     "list_all (\<lambda>s. 0 \<le> st_altitude s) new"
     "h' = snd (run_events_calls evs new h1)"
     "out' = (out @ event_lines h state tr) @ run_lines h1 new (fst (run_events_calls evs new h1)) @ [TimeoutReached]"
    by blast
  have up: "[Suc k..<6002] = Suc k # [Suc (Suc k)..<6002]"
    using k(1) by (simp add: upt_rec)
  have rl: "run_lines h1 = run_lines h"
    unfolding h1_def by (rule run_lines_run_events)
  show ?case
    apply (rule exI[of _ "state # new"])
    using new st up
    by (simp add: run_events_calls_Cons run_lines_Cons rl h1_def[symmetric] tr_def[symmetric]
          del: run_events_calls.simps of_nat_Suc)
qed

lemma sim_loop_total:
  assumes m: "mass \<noteq> 0" and c: "\<And>t. \<exists>thrust. interp_thrust thrust_curve t = Inr thrust"
  shows "k \<le> 6000 \<Longrightarrow> 0 \<le> altitude \<Longrightarrow>
    \<exists>r. sim_loop thrust_curve mass drag_coeff area evs (real k * dt) velocity altitude data out h = Inr r"
proof (induction "6000 - k" arbitrary: k velocity altitude data out h)
  case 0
  then have k: "k = 6000" by simp
  from c obtain thrust where th: "interp_thrust thrust_curve (real k * dt) = Inr thrust"
    by blast
  show ?case
    unfolding sim_loop_step[OF "0.prems"(2) th m] Let_def grid_next
    using grid_cutoff[of k] k by (simp del: of_nat_Suc)
next
  case (Suc n)
  then have k: "k < 6000" "Suc k \<le> 6000" "n = 6000 - Suc k" by simp_all
  from c obtain thrust where th: "interp_thrust thrust_curve (real k * dt) = Inr thrust"
    by blast
  have a: "0 \<le> st_altitude (step_sample thrust mass drag_coeff area (real k * dt) velocity altitude)"
    by (rule step_sample_simps)
  have nc: "\<not> 300 < real (Suc k) * dt"
    using grid_cutoff[of k] k by simp
  show ?case
    unfolding sim_loop_step[OF Suc.prems(2) th m] Let_def grid_next if_not_P[OF nc]
    by (rule Suc.hyps(1)[OF k(3) k(2) a])
qed

lemma simulate_flight_loop:
  "simulate_flight config h =
     sim_loop (config_thrust_curve config) (effective_mass config) (drag_coefficient config)
       (pi * (rocket_diameter config / 2)\<^sup>2) (events config) (real 0 * dt) 0 0 []
       [Simulating (name config)] h"
  by (simp add: simulate_flight_def Let_def config_thrust_curve_def effective_mass_def)

lemma simulate_flight_total:
  assumes "effective_mass config \<noteq> 0" and "no_repeated_time (config_thrust_curve config)"
  shows "\<exists>r. simulate_flight config h = Inr r"
  unfolding simulate_flight_loop
  by (rule sim_loop_total[OF assms(1) interp_thrust_no_error[OF assms(2)]]) simp_all

lemma simulate_flight_result:
  assumes "simulate_flight config h = Inr (data, out, h')"
  shows "map st_time data = map (\<lambda>j. real j * dt) [1..<6002]
     \<and> list_all (\<lambda>s. 0 \<le> st_altitude s) data
     \<and> h' = snd (run_events_calls (events config) data h)
     \<and> out = Simulating (name config)
               # run_lines h data (fst (run_events_calls (events config) data h))
               @ [TimeoutReached]"
proof -
  have "\<exists>new. data = [] @ new
     \<and> map st_time new = map (\<lambda>j. real j * dt) [Suc 0..<6002]
     \<and> list_all (\<lambda>s. 0 \<le> st_altitude s) new
     \<and> h' = snd (run_events_calls (events config) new h)
     \<and> out = [Simulating (name config)] @ run_lines h new (fst (run_events_calls (events config) new h)) @ [TimeoutReached]"
    by (rule sim_loop_result[OF _ _ assms[unfolded simulate_flight_loop]]) simp_all
  then show ?thesis by simp
qed

lemma simulate_flight_length:
  assumes "simulate_flight config h = Inr (data, out, h')"
  shows "length data = 6001"
proof -
  have "map st_time data = map (\<lambda>j. real j * dt) [1..<6002]"
    using simulate_flight_result[OF assms] by blast
  then have "length (map st_time data) = length (map (\<lambda>j. real j * dt) [1..<6002])"
    by (rule arg_cong)
  then show ?thesis by simp
qed

lemma simulate_flight_time:
  assumes "simulate_flight config h = Inr (data, out, h')" and "i < 6001"
  shows "st_time (data ! i) = real (Suc i) * dt"
proof -
  have m: "map st_time data = map (\<lambda>j. real j * dt) [1..<6002]"
    using simulate_flight_result[OF assms(1)] by blast
  have l: "i < length data"
    using simulate_flight_length[OF assms(1)] assms(2) by simp
  have "st_time (data ! i) = map st_time data ! i"
    using l by simp
  also have "\<dots> = map (\<lambda>j. real j * dt) [1..<6002] ! i"
    by (simp only: m)
  also have "\<dots> = real (Suc i) * dt"
    using assms(2) by (simp del: of_nat_Suc)
  finally show ?thesis .
qed

lemma grid_times_sorted: "sorted_wrt (<) (map (\<lambda>j. real j * dt) [m..<n])"
proof -
  have "sorted_wrt (\<lambda>i j. real i * dt < real j * dt) [m..<n]"
    by (rule sorted_wrt_mono_rel[OF _ sorted_wrt_upt[of m n]]) (simp add: dt_def)
  then show ?thesis by (simp add: sorted_wrt_map)
qed

lemma simulate_flight_samples:
  assumes "simulate_flight config h = Inr (data, out, h')"
  shows "data \<noteq> []
     \<and> map st_time data = map (\<lambda>j. real j * dt) [1..<Suc (length data)]
     \<and> sorted_wrt (<) (map st_time data)
     \<and> st_time (hd data) = dt
     \<and> list_all (\<lambda>s. st_time s \<noteq> 0) data
     \<and> dt = 0.05"
proof -
  have l: "length data = 6001"
    by (rule simulate_flight_length[OF assms])
  have m: "map st_time data = map (\<lambda>j. real j * dt) [1..<6002]"
    using simulate_flight_result[OF assms] by blast
  have ne: "data \<noteq> []" using l by auto
  have "st_time (hd data) = st_time (data ! 0)"
    using ne by (simp add: hd_conv_nth)
  also have "\<dots> = dt"
    using simulate_flight_time[OF assms, of 0] by simp
  finally have h: "st_time (hd data) = dt" .
  have "\<forall>x\<in>set (map st_time data). x \<noteq> 0"
    unfolding m by (auto simp: dt_def)
  then have nz: "list_all (\<lambda>s. st_time s \<noteq> 0) data"
    by (simp add: list_all_iff)
  show ?thesis
    using ne h nz grid_times_sorted[of 1 6002] by (simp add: m l dt_def)
qed

lemma scenario_ok:
  "effective_mass scenario_config \<noteq> 0"
  "no_repeated_time (config_thrust_curve scenario_config)"
  "sorted_wrt (<) (map fst (config_thrust_curve scenario_config))"
  by (simp_all add: scenario_config_def default_config_def effective_mass_def
        config_thrust_curve_def)

lemma simulate_flight_last:
  assumes "simulate_flight config h = Inr (data, out, h')"
  shows "st_time (last data) = 6001 * dt" "last out = TimeoutReached"
proof -
  have l: "length data = 6001" by (rule simulate_flight_length[OF assms])
  then have "last data = data ! 6000"
    by (subst last_conv_nth) auto
  then show "st_time (last data) = 6001 * dt"
    using simulate_flight_time[OF assms, of 6000] by simp
  show "last out = TimeoutReached"
    using simulate_flight_result[OF assms] by simp
qed

lemma sim_loop_trajectory:
  "k \<le> 6000 \<Longrightarrow> 0 \<le> altitude \<Longrightarrow>
   sim_loop thrust_curve mass drag_coeff area evs (real k * dt) velocity altitude data out h
     = Inr (data @ new, out', h') \<Longrightarrow>
   trajectory thrust_curve mass drag_coeff area (real k * dt) velocity altitude new"
proof (induction "6000 - k" arbitrary: k velocity altitude data new out h)
  case 0
  then have k: "k = 6000" by simp
  from sim_loop_Inr_cases[OF "0.prems"(3) "0.prems"(2)]
  obtain thrust where m: "mass \<noteq> 0" and th: "interp_thrust thrust_curve (real k * dt) = Inr thrust"
    by blast
  define state where "state = step_sample thrust mass drag_coeff area (real k * dt) velocity altitude"
  have "sim_loop thrust_curve mass drag_coeff area evs (real k * dt) velocity altitude data out h
        = Inr (data @ [state], (out @ event_lines h state (fst (run_events evs state h))) @ [TimeoutReached],
               snd (run_events evs state h))"
    unfolding sim_loop_step[OF "0.prems"(2) th m] Let_def state_def[symmetric] grid_next
    using grid_cutoff[of k] k by (simp add: event_lines_run_events del: of_nat_Suc)
  with "0.prems"(3) have "new = [state]" by simp
  then show ?case by (simp add: th state_def)
next
  case (Suc n)
  then have k: "k < 6000" "Suc k \<le> 6000" "n = 6000 - Suc k" by simp_all
  from sim_loop_Inr_cases[OF Suc.prems(3) Suc.prems(2)]
  obtain thrust where m: "mass \<noteq> 0" and th: "interp_thrust thrust_curve (real k * dt) = Inr thrust"
    by blast
  define state where "state = step_sample thrust mass drag_coeff area (real k * dt) velocity altitude"
  define h1 where "h1 = snd (run_events evs state h)"
  define tr where "tr = fst (run_events evs state h)"
  have st: "0 \<le> st_altitude state"
    by (simp add: state_def step_sample_simps)
  have "sim_loop thrust_curve mass drag_coeff area evs (real k * dt) velocity altitude data out h
        = sim_loop thrust_curve mass drag_coeff area evs (real (Suc k) * dt) (st_velocity state)
            (st_altitude state) (data @ [state]) (out @ event_lines h state tr) h1"
    unfolding sim_loop_step[OF Suc.prems(2) th m] Let_def state_def[symmetric] grid_next
      h1_def tr_def
    using grid_cutoff[of k] k by (simp add: event_lines_run_events del: of_nat_Suc)
  with Suc.prems(3) have e: "sim_loop thrust_curve mass drag_coeff area evs (real (Suc k) * dt)
      (st_velocity state) (st_altitude state) (data @ [state]) (out @ event_lines h state tr) h1
      = Inr (data @ new, out', h')"
    by simp
  from sim_loop_result[OF k(2) st e]
  obtain new' where new': "data @ new = (data @ [state]) @ new'" by blast
  then have n: "new = state # new'" by simp
  have e': "sim_loop thrust_curve mass drag_coeff area evs (real (Suc k) * dt)
      (st_velocity state) (st_altitude state) (data @ [state]) (out @ event_lines h state tr) h1
      = Inr ((data @ [state]) @ new', out', h')"
    using e new' by simp
  have "trajectory thrust_curve mass drag_coeff area (real (Suc k) * dt) (st_velocity state)
          (st_altitude state) new'"
    by (rule Suc.hyps(1)[OF k(3) k(2) st e'])
  then show ?case
    by (simp add: n th state_def[symmetric] grid_next del: of_nat_Suc)
qed

lemma simulate_flight_trajectory:
  assumes "simulate_flight config h = Inr (data, out, h')"
  shows "trajectory (config_thrust_curve config) (effective_mass config) (drag_coefficient config)
           (pi * (rocket_diameter config / 2)\<^sup>2) 0 0 0 data"
  using sim_loop_trajectory[of 0 0 "config_thrust_curve config" "effective_mass config"
      "drag_coefficient config" "pi * (rocket_diameter config / 2)\<^sup>2" "events config" 0 "[]"
      "[Simulating (name config)]" h data out h']
    assms[unfolded simulate_flight_loop]
  by simp

lemma trajectory_unique:
  "trajectory c m cd a t v alt xs \<Longrightarrow> trajectory c m cd a t v alt ys \<Longrightarrow> length xs = length ys
   \<Longrightarrow> xs = ys"
proof (induction xs arbitrary: t v alt ys)
  case Nil
  then show ?case by simp
next
  case (Cons x xs)
  then obtain y ys' where ys: "ys = y # ys'" by (cases ys) auto
  with Cons.prems obtain thrust where th: "interp_thrust c t = Inr thrust"
    by (auto split: sum.splits)
  with Cons.prems ys have xy: "x = y" by simp
  have "xs = ys'"
    using Cons.IH[of "t + dt" "st_velocity x" "st_altitude x" ys'] Cons.prems ys th xy
    by auto
  with xy ys show ?case by simp
qed

lemma simulate_flight_zero_mass:
  assumes "effective_mass config = 0"
  shows "simulate_flight config h = Inl ZeroDivisionError"
proof -
  have e: "e = ZeroDivisionError" for e :: error by (cases e) simp
  show ?thesis
    unfolding simulate_flight_loop
    by (subst sim_loop.simps) (simp add: assms accel_of_def e split: sum.splits)
qed


lemma drag_force_zero: "drag_force 0 drag_coeff area = 0"
  by (simp add: drag_force_def)

lemma run_events_calls_all_fired:
  assumes "\<forall>a\<in>set evs. get_triggered (h a)"
  shows "run_events_calls evs states h = (replicate (length states) [], h)"
proof (induction states)
  case Nil
  then show ?case by simp
next
  case (Cons s states)
  have "run_events evs s h = ([], h)"
    by (rule run_events_none) (use assms in \<open>simp add: should_fire_def\<close>)
  then show ?case
    using Cons.IH by simp
qed

lemma run_lines_nothing: "run_lines h states (replicate n []) = []"
proof (induction states arbitrary: n)
  case Nil
  then show ?case by (simp add: run_lines_def)
next
  case (Cons s states)
  then show ?case
    by (cases n) (simp_all add: run_lines_def event_lines_def)
qed

lemma simulate_flight_all_fired:
  assumes "\<forall>a\<in>set (events config). get_triggered (h a)"
    and "simulate_flight config h = Inr (data, out, h')"
  shows "out = [Simulating (name config), TimeoutReached]" "h' = h"
  using simulate_flight_result[OF assms(2)] run_events_calls_all_fired[OF assms(1), of data]
  by (simp_all add: run_lines_nothing)

lemma parachute_ok:
  "effective_mass parachute_config \<noteq> 0"
  "no_repeated_time (config_thrust_curve parachute_config)"
  "events parachute_config = [0]"
  "name parachute_config = ''NewMission''"
  by (simp_all add: parachute_config_def default_config_def effective_mass_def
        config_thrust_curve_def)

lemma parachute_first_call:
  assumes "st_time s = dt"
  shows "run_events [0] s parachute_store = ([0], parachute_store_fired)"
proof -
  have "should_fire parachute_store s 0"
    by (simp add: should_fire_def parachute_store_def get_triggered_def get_condition_def
          assms dt_def)
  then show ?thesis
    by (simp add: run_events_Cons_fire parachute_store_fired_def del: run_events.simps(2))
qed

lemma scenario_first_thrust: "interp_thrust (config_thrust_curve scenario_config) 0 = Inr 12"
  by (simp add: scenario_config_def default_config_def config_thrust_curve_def interp_thrust_def)

section \<open>The end-to-end scenario comes back to the ground\<close>

text \<open>
  With mass 1/2 the velocity after a step is the velocity before it plus
  \<open>(2 thrust - 2 drag - g) / 20\<close>, where the drag is \<open>K v\<^sup>2\<close> against the motion and
  \<open>K\<close>, the product of half the air density, the drag coefficient and the area, lies
  between 0.00057 and 0.00115 (from \<open>2 \<le> pi < 4\<close>). While the velocity stays between
  -100 and 64 m/s this gives the bounds \<open>descent_bound\<close> adds up; its value after 600
  steps is negative, so a flight that has not touched the ground in 600 steps is
  impossible.
\<close>

lemma step_velocity_half:
  assumes "K = 0.5 * AIR_DENSITY * drag_coeff * area"
  shows "st_velocity (step_sample thrust (1 / 2) drag_coeff area t v a)
     = v + (2 * thrust - 2 * (if 0 < v then K * v\<^sup>2 else - (K * v\<^sup>2)) - 981 / 100) / 20"
  by (simp add: step_sample_def Let_def drag_force_def assms GRAVITY_def dt_def field_simps)

lemma step_altitude:
  "st_altitude (step_sample thrust mass drag_coeff area t v a)
     = (if a + st_velocity (step_sample thrust mass drag_coeff area t v a) * dt < 0 then 0
        else a + st_velocity (step_sample thrust mass drag_coeff area t v a) * dt)"
  by (simp add: step_sample_def Let_def)

lemma square_bound:
  fixes v :: real
  assumes "- b \<le> v" "v \<le> b"
  shows "v\<^sup>2 \<le> b\<^sup>2"
  using assms by (simp add: abs_le_square_iff[symmetric] abs_le_iff)

lemma drag_term_bounds:
  fixes K v :: real
  assumes "57 / 100000 \<le> K" "K \<le> 23 / 20000" "- b \<le> v" "v \<le> b"
  shows "0 \<le> K * v\<^sup>2" "K * v\<^sup>2 \<le> 23 / 20000 * (b * b)"
proof -
  have "0 \<le> K" using assms(1) by simp
  then show "0 \<le> K * v\<^sup>2" by simp
  have "v\<^sup>2 \<le> b\<^sup>2" by (rule square_bound[OF assms(3,4)])
  then show "K * v\<^sup>2 \<le> 23 / 20000 * (b * b)"
    unfolding power2_eq_square[symmetric]
    using assms(2) \<open>0 \<le> K\<close> by (intro mult_mono) simp_all
qed

lemma velocity_lower:
  fixes K v thrust :: real
  assumes K: "57 / 100000 \<le> K" "K \<le> 23 / 20000"
    and d: "K = 0.5 * AIR_DENSITY * drag_coeff * area"
    and v: "- 100 \<le> v" "v \<le> 64" and th: "0 \<le> thrust"
  shows "- 100 \<le> st_velocity (step_sample thrust (1 / 2) drag_coeff area t v a)"
proof (cases "0 < v")
  case True
  have "K * v\<^sup>2 \<le> 23 / 20000 * (64 * 64)"
    using drag_term_bounds(2)[OF K, of 64 v] True v by simp
  then show ?thesis
    using True th v
    unfolding step_velocity_half[OF d] by (simp; argo)
next
  case False
  then have n: "v \<le> 0" by simp
  have p: "0 \<le> K * v\<^sup>2" using K by simp
  show ?thesis
  proof (cases "- 199 / 2 \<le> v")
    case True
    then show ?thesis
      using n p th
      unfolding step_velocity_half[OF d] by (simp; argo)
  next
    case False
    then have "\<bar>99 :: real\<bar> \<le> \<bar>v\<bar>"
      by simp
    then have "(99 :: real)\<^sup>2 \<le> v\<^sup>2"
      by (simp only: abs_le_square_iff)
    then have "57 / 100000 * 99\<^sup>2 \<le> K * v\<^sup>2"
      using K(1) by (intro mult_mono) simp_all
    then show ?thesis
      using n th v
      unfolding step_velocity_half[OF d] by (simp; argo)
  qed
qed

lemma velocity_burn_upper:
  fixes K v thrust :: real
  assumes K: "57 / 100000 \<le> K" "K \<le> 23 / 20000"
    and d: "K = 0.5 * AIR_DENSITY * drag_coeff * area"
    and v: "- 100 \<le> v" "v \<le> 64" and th: "thrust \<le> 12"
  shows "st_velocity (step_sample thrust (1 / 2) drag_coeff area t v a) \<le> max v 0 + 2"
proof (cases "0 < v")
  case True
  have "0 \<le> K * v\<^sup>2" using K by simp
  then show ?thesis
    using True th
    unfolding step_velocity_half[OF d] by (simp; argo)
next
  case False
  then have n: "v \<le> 0" by simp
  have "K * v\<^sup>2 \<le> 23 / 20000 * (100 * 100)"
    using drag_term_bounds(2)[OF K, of 100 v] n v by simp
  then show ?thesis
    using n th
    unfolding step_velocity_half[OF d] by (simp; argo)
qed

lemma velocity_coast_upper:
  fixes K v :: real
  assumes K: "57 / 100000 \<le> K" "K \<le> 23 / 20000"
    and d: "K = 0.5 * AIR_DENSITY * drag_coeff * area"
    and v: "- 100 \<le> v" "v \<le> 64"
  shows "st_velocity (step_sample 0 (1 / 2) drag_coeff area t v a) \<le> max (v - 49 / 200) (- 46)"
proof -
  consider "0 < v" | "- 46 \<le> v" "v \<le> 0" | "- 95 / 2 \<le> v" "v < - 46" | "v < - 95 / 2"
    by linarith
  then show ?thesis
  proof cases
    case 1
    have "0 \<le> K * v\<^sup>2" using K by simp
    then show ?thesis
      using 1 unfolding step_velocity_half[OF d] by (simp; argo)
  next
    case 2
    have "K * v\<^sup>2 \<le> 23 / 20000 * (46 * 46)"
      using drag_term_bounds(2)[OF K, of 46 v] 2 by simp
    then show ?thesis
      using 2 unfolding step_velocity_half[OF d] by (simp; argo)
  next
    case 3
    have "K * v\<^sup>2 \<le> 23 / 20000 * (95 / 2 * (95 / 2))"
      using drag_term_bounds(2)[OF K, of "95 / 2" v] 3 by simp
    then show ?thesis
      using 3 unfolding step_velocity_half[OF d] by (simp; argo)
  next
    case 4
    have "K * v\<^sup>2 \<le> 23 / 20000 * (100 * 100)"
      using drag_term_bounds(2)[OF K, of 100 v] 4 v by simp
    then show ?thesis
      using 4 unfolding step_velocity_half[OF d] by (simp; argo)
  qed
qed

lemma scenario_thrust:
  "\<exists>th. interp_thrust [(0, 12), (1.6, 0)] (real k * dt) = Inr th \<and> 0 \<le> th \<and> th \<le> 12
        \<and> (32 \<le> k \<longrightarrow> th = 0)"
proof (cases "k \<le> 32")
  case True
  then have "real k \<le> 32" by simp
  then have t: "0 \<le> real k * dt" "real k * dt \<le> 1.6"
    by (simp_all add: dt_def)
  then have "interp_thrust [(0, 12), (1.6, 0)] (real k * dt)
             = Inr (12 + (0 - 12) * (real k * dt - 0) / (1.6 - 0))"
    by (simp add: interp_thrust_def)
  moreover have "0 \<le> 12 + (0 - 12) * (real k * dt - 0) / (1.6 - 0)"
    "12 + (0 - 12) * (real k * dt - 0) / (1.6 - 0) \<le> (12 :: real)"
    using t by (simp_all add: field_simps)
  moreover have "12 + (0 - 12) * (real k * dt - 0) / (1.6 - 0) = (0 :: real)" if "32 \<le> k"
  proof -
    from that True have "k = 32" by simp
    then show ?thesis by (simp add: dt_def)
  qed
  ultimately show ?thesis by blast
next
  case False
  then have "33 \<le> real k" by simp
  then have "1.6 < real k * dt" by (simp add: dt_def)
  then have "interp_thrust [(0, 12), (1.6, 0)] (real k * dt) = Inr 0"
    by (simp add: interp_thrust_def)
  then show ?thesis by simp
qed

lemma trajectory_take:
  "trajectory c m cd a t v alt xs \<Longrightarrow> trajectory c m cd a t v alt (take n xs)"
proof (induction xs arbitrary: t v alt n)
  case Nil
  then show ?case by simp
next
  case (Cons x xs)
  then show ?case
    by (cases n) (auto split: sum.splits)
qed

lemma scenario_descent:
  assumes K: "57 / 100000 \<le> K" "K \<le> 23 / 20000"
    and d: "K = 0.5 * AIR_DENSITY * drag_coeff * area"
  shows "trajectory [(0, 12), (1.6, 0)] (1 / 2) drag_coeff area (real k * dt) v a xs \<Longrightarrow>
     r = 32 - k \<Longrightarrow> - 100 \<le> v \<Longrightarrow> v \<le> bv \<Longrightarrow> bv + 2 * real r \<le> 64 \<Longrightarrow>
     (0 < r \<longrightarrow> 0 \<le> bv) \<Longrightarrow> 0 \<le> a \<Longrightarrow> a \<le> ba \<Longrightarrow>
     descent_bound (length xs) r bv ba < 0 \<Longrightarrow>
     \<exists>i < length xs. st_altitude (xs ! i) = 0"
proof (induction xs arbitrary: k r v a bv ba)
  case Nil
  then show ?case by simp
next
  case (Cons s xs)
  obtain th where th: "interp_thrust [(0, 12), (1.6, 0)] (real k * dt) = Inr th"
    "0 \<le> th" "th \<le> 12" "32 \<le> k \<longrightarrow> th = 0"
    using scenario_thrust[of k] by blast
  define v' where "v' = st_velocity s"
  define a' where "a' = st_altitude s"
  have both: "s = step_sample th (1 / 2) drag_coeff area (real k * dt) v a
      \<and> trajectory [(0, 12), (1.6, 0)] (1 / 2) drag_coeff area (real k * dt + dt)
            (st_velocity s) (st_altitude s) xs"
    using Cons.prems(1) unfolding trajectory.simps th(1) sum.case by this
  then have s: "s = step_sample th (1 / 2) drag_coeff area (real k * dt) v a"
    by blast
  have tr: "trajectory [(0, 12), (1.6, 0)] (1 / 2) drag_coeff area (real (Suc k) * dt) v' a' xs"
    using both unfolding grid_next v'_def a'_def by blast
  have v48: "v \<le> 64"
    using Cons.prems(4,5) by linarith
  have lo: "- 100 \<le> v'"
    unfolding v'_def s by (rule velocity_lower[OF K d Cons.prems(3) v48 th(2)])
  have a0: "0 \<le> a'"
    unfolding a'_def s by (rule step_sample_simps)
  have a_eq: "a' = a + v' / 20" if "a' \<noteq> 0"
    using that unfolding a'_def v'_def s step_altitude
    by (simp add: dt_def split: if_splits)
  show ?case
  proof (cases "a' = 0")
    case True
    then have "0 < length (s # xs) \<and> st_altitude ((s # xs) ! 0) = 0"
      by (simp add: a'_def)
    then show ?thesis by blast
  next
    case False
    define r' where "r' = 32 - Suc k"
    define bv' where "bv' = (if r = 0 then max (bv - 49 / 200) (- 46) else bv + 2)"
    have n: "v' \<le> bv'" "bv' + 2 * real r' \<le> 64" "0 < r' \<longrightarrow> 0 \<le> bv'"
      "descent_bound (length (s # xs)) r bv ba = descent_bound (length xs) r' bv' (ba + bv' / 20)"
    proof -
      show "v' \<le> bv'"
      proof (cases r)
        case 0
        then have k32: "32 \<le> k" using Cons.prems(2) by simp
        then have th0: "th = 0" using th(4) by simp
        have "v' \<le> max (v - 49 / 200) (- 46)"
          unfolding v'_def s th0 by (rule velocity_coast_upper[OF K d Cons.prems(3) v48])
        then have "v' \<le> max (bv - 49 / 200) (- 46)"
          using Cons.prems(4) by linarith
        then show ?thesis unfolding bv'_def 0 by simp
      next
        case (Suc q)
        then have b0: "0 \<le> bv" using Cons.prems(6) by simp
        have "v' \<le> max v 0 + 2"
          unfolding v'_def s by (rule velocity_burn_upper[OF K d Cons.prems(3) v48 th(3)])
        then have "v' \<le> bv + 2"
          using Cons.prems(4) b0 by linarith
        then show ?thesis unfolding bv'_def Suc by simp
      qed
      show "bv' + 2 * real r' \<le> 64"
      proof (cases r)
        case 0
        then have "r' = 0" using Cons.prems(2) unfolding r'_def by simp
        moreover have "bv \<le> 64" using Cons.prems(5) by linarith
        ultimately show ?thesis unfolding bv'_def 0 by simp
      next
        case (Suc q)
        then have "real r = real r' + 1" using Cons.prems(2) unfolding r'_def by simp
        then have "bv + 2 + 2 * real r' \<le> 64" using Cons.prems(5) by linarith
        then show ?thesis unfolding bv'_def Suc by simp
      qed
      show "0 < r' \<longrightarrow> 0 \<le> bv'"
      proof (cases r)
        case 0
        then have "r' = 0" using Cons.prems(2) unfolding r'_def by simp
        then show ?thesis by simp
      next
        case (Suc q)
        then have "0 \<le> bv" using Cons.prems(6) by simp
        then show ?thesis unfolding bv'_def Suc by simp
      qed
      show "descent_bound (length (s # xs)) r bv ba
            = descent_bound (length xs) r' bv' (ba + bv' / 20)"
      proof (cases r)
        case 0
        then have "r' = 0" using Cons.prems(2) unfolding r'_def by simp
        then show ?thesis unfolding bv'_def 0 by simp
      next
        case (Suc q)
        then have "r' = q" using Cons.prems(2) unfolding r'_def by simp
        then show ?thesis unfolding bv'_def Suc by simp
      qed
    qed
    have "a' \<le> ba + bv' / 20"
      using a_eq[OF False] Cons.prems(8) n(1) by linarith
    moreover have "descent_bound (length xs) r' bv' (ba + bv' / 20) < 0"
      using Cons.prems(9) unfolding n(4) by this
    ultimately have "\<exists>i < length xs. st_altitude (xs ! i) = 0"
      by (rule Cons.IH[OF tr r'_def lo n(1) n(2) n(3) a0])
    then obtain i where "i < length xs" "st_altitude (xs ! i) = 0"
      by blast
    then have "Suc i < length (s # xs) \<and> st_altitude ((s # xs) ! Suc i) = 0"
      by simp
    then show ?thesis by blast
  qed
qed

lemma scenario_drag_constant:
  "57 / 100000 \<le> 0.5 * AIR_DENSITY * drag_coefficient scenario_config
                    * (pi * (rocket_diameter scenario_config / 2)\<^sup>2)"
  "0.5 * AIR_DENSITY * drag_coefficient scenario_config
     * (pi * (rocket_diameter scenario_config / 2)\<^sup>2) \<le> 23 / 20000"
  using pi_ge_two pi_less_4
  by (simp_all add: scenario_config_def default_config_def AIR_DENSITY_def power2_eq_square)

lemma descent_bound_negative: "descent_bound 600 32 0 0 < 0"
  by (simp add: eval_nat_numeral)

lemma scenario_lands:
  assumes "simulate_flight scenario_config h = Inr (data, out, h')"
  shows "\<exists>i < 600. st_altitude (data ! i) = 0"
proof -
  have m: "effective_mass scenario_config = 1 / 2"
    and c: "config_thrust_curve scenario_config = [(0, 12), (1.6, 0)]"
    by (simp_all add: effective_mass_def config_thrust_curve_def scenario_config_def
          default_config_def)
  have l: "length data = 6001" by (rule simulate_flight_length[OF assms])
  then have len: "length (take 600 data) = 600" by simp
  have tr: "trajectory [(0, 12), (1.6, 0)] (1 / 2) (drag_coefficient scenario_config)
          (pi * (rocket_diameter scenario_config / 2)\<^sup>2) (real 0 * dt) 0 0 (take 600 data)"
    using trajectory_take[OF simulate_flight_trajectory[OF assms], of 600]
    unfolding m c by simp
  have b: "descent_bound (length (take 600 data)) 32 0 0 < 0"
    unfolding len by (rule descent_bound_negative)
  have "\<exists>i < length (take 600 data). st_altitude (take 600 data ! i) = 0"
    by (rule scenario_descent[OF scenario_drag_constant refl tr _ _ _ _ _ _ _ b]) simp_all
  then obtain i where "i < 600" "st_altitude (take 600 data ! i) = 0"
    unfolding len by blast
  then have "i < 600 \<and> st_altitude (data ! i) = 0"
    by simp
  then show ?thesis by blast
qed

section \<open>The claims\<close>

text \<open>
  C1, on the end-to-end scenario of the specification. The run returns its samples (6001
  of them in exact arithmetic, the last at 300.05 s); the first of them is above the
  ground and one of the first 600 (the first 30 s) is on the ground again, yet the last
  sample is after the cutoff of 300 s, and the last line printed is the timeout's. The altitude is clamped to 0 before the loop condition
  \<^verbatim>\<open>altitude >= 0\<close> is tested, so the condition never ends the loop and the
  flight time the run reports is not below 300 s.
\<close>

theorem scenario_runs_to_cutoff:
  "\<exists>data out h'. simulate_flight scenario_config h = Inr (data, out, h')
     \<and> length data = 6001
     \<and> 0 < st_altitude (hd data)
     \<and> (\<exists>i < 600. st_altitude (data ! i) = 0)
     \<and> st_time (last data) = 6001 / 20
     \<and> 300 < st_time (last data)
     \<and> last out = TimeoutReached"
proof -
  obtain data out h' where r: "simulate_flight scenario_config h = Inr (data, out, h')"
    using simulate_flight_total[OF scenario_ok(1,2), of h] by (metis prod_cases3)
  have l: "length data = 6001" by (rule simulate_flight_length[OF r])
  then obtain s rest where d: "data = s # rest" by (cases data) auto
  have "trajectory (config_thrust_curve scenario_config) (effective_mass scenario_config)
          (drag_coefficient scenario_config) (pi * (rocket_diameter scenario_config / 2)\<^sup>2)
          0 0 0 (s # rest)"
    using simulate_flight_trajectory[OF r] by (simp add: d)
  then have "s = step_sample 12 (effective_mass scenario_config) (drag_coefficient scenario_config)
                   (pi * (rocket_diameter scenario_config / 2)\<^sup>2) 0 0 0"
    by (simp add: scenario_first_thrust)
  then have "0 < st_altitude s"
    by (simp add: step_sample_def drag_force_def Let_def effective_mass_def scenario_config_def
          default_config_def GRAVITY_def dt_def)
  then have a: "0 < st_altitude (hd data)" by (simp add: d)
  have g: "\<exists>i < 600. st_altitude (data ! i) = 0"
    by (rule scenario_lands[OF r])
  have t: "st_time (last data) = 6001 / 20"
    using simulate_flight_last(1)[OF r] by (simp add: dt_def)
  then have c: "300 < st_time (last data)" by simp
  show ?thesis
    using r l a g t c simulate_flight_last(2)[OF r] by blast
qed

text \<open>
  C2, on the default configuration with one unconditional event at time 0. The first run
  prints the event at 0.05 s and leaves the caller's event object with its flag set
  (the copy of the list shares the dicts); a second run of the same configuration on
  the store the first one left prints no event, with the same samples.
\<close>

theorem second_run_sees_fired_flags:
  "\<exists>data. simulate_flight parachute_config parachute_store
             = Inr (data,
                    [Simulating ''NewMission'', EventTriggered (1 / 20) ''deploy_parachute'',
                     TimeoutReached],
                    parachute_store_fired)
        \<and> simulate_flight parachute_config parachute_store_fired
             = Inr (data, [Simulating ''NewMission'', TimeoutReached], parachute_store_fired)
        \<and> ev_triggered (parachute_store 0) = None
        \<and> ev_triggered (parachute_store_fired 0) = Some True"
proof -
  obtain data out h' where r: "simulate_flight parachute_config parachute_store = Inr (data, out, h')"
    using simulate_flight_total[OF parachute_ok(1,2), of parachute_store] by (metis prod_cases3)
  obtain data2 out2 h2 where r2:
    "simulate_flight parachute_config parachute_store_fired = Inr (data2, out2, h2)"
    using simulate_flight_total[OF parachute_ok(1,2), of parachute_store_fired] by (metis prod_cases3)
  have fired: "\<forall>a\<in>set (events parachute_config). get_triggered (parachute_store_fired a)"
    by (simp add: parachute_ok parachute_store_fired_def get_triggered_def)
  have l: "length data = 6001" by (rule simulate_flight_length[OF r])
  then obtain s rest where d: "data = s # rest" by (cases data) auto
  have "st_time (data ! 0) = dt"
    using simulate_flight_time[OF r, of 0] by simp
  then have s: "st_time s = dt" by (simp add: d)
  have c: "run_events_calls [0] data parachute_store
           = ([0] # replicate (length rest) [], parachute_store_fired)"
    unfolding d run_events_calls_Cons parachute_first_call[OF s] fst_conv snd_conv
    using run_events_calls_all_fired[OF fired, of rest] by (simp add: parachute_ok)
  have res: "h' = snd (run_events_calls [0] data parachute_store)"
    "out = Simulating ''NewMission''
           # run_lines parachute_store data (fst (run_events_calls [0] data parachute_store))
           @ [TimeoutReached]"
    using simulate_flight_result[OF r] by (simp_all add: parachute_ok)
  have "run_lines parachute_store data ([0] # replicate (length rest) [])
        = [EventTriggered (1 / 20) ''deploy_parachute'']"
    unfolding d run_lines_Cons run_lines_nothing
    by (simp add: event_lines_def s dt_def parachute_store_def)
  then have "out = [Simulating ''NewMission'', EventTriggered (1 / 20) ''deploy_parachute'', TimeoutReached]"
    unfolding res(2) c fst_conv by simp
  moreover have "h' = parachute_store_fired"
    unfolding res(1) c by simp
  moreover have "out2 = [Simulating ''NewMission'', TimeoutReached]" "h2 = parachute_store_fired"
    using simulate_flight_all_fired[OF fired r2] by (simp_all add: parachute_ok)
  moreover have "data2 = data"
    by (rule trajectory_unique[OF simulate_flight_trajectory[OF r2] simulate_flight_trajectory[OF r]])
       (simp add: l simulate_flight_length[OF r2])
  moreover have "ev_triggered (parachute_store 0) = None"
    "ev_triggered (parachute_store_fired 0) = Some True"
    by (simp_all add: parachute_store_def parachute_store_fired_def)
  ultimately show ?thesis
    using r r2 by blast
qed







text \<open>
  C5, as the code has it. For a thrust curve with at least two control points whose times
  do not decrease, and a time strictly before the first control point's time, the lookup
  raises nothing and returns the thrust of the first control point (the last line of
  \<^verbatim>\<open>interp_thrust\<close>), not zero.
\<close>

theorem interp_thrust_before_first_point:
  "2 \<le> length curve \<Longrightarrow> sorted (map fst curve) \<Longrightarrow> t < fst (hd curve) \<Longrightarrow>
   interp_thrust curve t = Inr (snd (hd curve))"
  by (rule interp_thrust_before)

theorem interp_thrust_before_first_point_witness:
  "2 \<le> length [(1, 5), (2, 0 :: real)] \<and> sorted (map fst [(1 :: real, 5 :: real), (2, 0)])
   \<and> (1 / 2 :: real) < fst (hd [(1 :: real, 5 :: real), (2, 0)])
   \<and> interp_thrust [(1, 5), (2, 0)] (1 / 2) = Inr 5"
  using interp_thrust_before_first_point[of "[(1, 5), (2, 0)]" "1 / 2"]
  by simp

text \<open>
  The claim as it was stated (the lookup returns zero before the first control point)
  fails on the curve from 5 N at 1 s to 0 N at 2 s, looked up at time 0.
\<close>

theorem interp_thrust_before_first_point_counterexample:
  "interp_thrust [(1, 5), (2, 0)] 0 = Inr 5 \<and> interp_thrust [(1, 5), (2, 0)] 0 \<noteq> Inr 0"
  by (simp add: interp_thrust_def)





text \<open>
  C9, as the code has it. A run that returns has a non-empty list of samples, one per
  iteration, whose times are, in exact arithmetic, \<open>dt\<close>, \<open>2 dt\<close>, \<open>3 dt\<close>, ... with
  \<open>dt = 0.05\<close>: they increase strictly, the first is at \<open>dt\<close> and none is at time 0.
\<close>

theorem samples_progression:
  assumes "simulate_flight config h = Inr (data, out, h')"
  shows "data \<noteq> []
     \<and> map st_time data = map (\<lambda>j. real j * dt) [1..<Suc (length data)]
     \<and> sorted_wrt (<) (map st_time data)
     \<and> st_time (hd data) = dt
     \<and> list_all (\<lambda>s. st_time s \<noteq> 0) data
     \<and> dt = 0.05"
  by (rule simulate_flight_samples[OF assms])

theorem samples_progression_witness:
  "\<exists>data out h'. simulate_flight scenario_config parachute_store = Inr (data, out, h')
     \<and> data \<noteq> []
     \<and> map st_time data = map (\<lambda>j. real j * dt) [1..<Suc (length data)]
     \<and> sorted_wrt (<) (map st_time data)
     \<and> st_time (hd data) = dt"
proof -
  obtain data out h' where r: "simulate_flight scenario_config parachute_store = Inr (data, out, h')"
    using simulate_flight_total[OF scenario_ok(1,2), of parachute_store] by (metis prod_cases3)
  from samples_progression[OF r] r show ?thesis by blast
qed

text \<open>
  The claim as it was stated (every run returns a non-empty list of samples) fails on
  the end-to-end scenario with rocket mass 0: the run raises \<^verbatim>\<open>ZeroDivisionError\<close> in its
  first iteration and returns no samples.
\<close>

theorem samples_progression_counterexample:
  "simulate_flight (scenario_config\<lparr>rocket_mass := 0\<rparr>) parachute_store = Inl ZeroDivisionError
   \<and> samples_of (simulate_flight (scenario_config\<lparr>rocket_mass := 0\<rparr>) parachute_store) = []"
proof -
  have "simulate_flight (scenario_config\<lparr>rocket_mass := 0\<rparr>) parachute_store = Inl ZeroDivisionError"
    by (rule simulate_flight_zero_mass)
       (simp add: effective_mass_def scenario_config_def default_config_def)
  then show ?thesis by (simp add: samples_of_def)
qed

text \<open>
  C10. At velocity 0 the drag is 0, whatever the sign factor, so the acceleration is
  \<open>(thrust - mass * g) / mass\<close> (the division raising when the mass is 0); an
  iteration of the loop that starts at velocity 0 appends the sample with that
  acceleration and goes on from the velocity and altitude it gives.
\<close>

theorem drag_zero_at_rest:
  "drag_force 0 drag_coeff area = 0
   \<and> 0.5 * AIR_DENSITY * 0\<^sup>2 * drag_coeff * area * factor = drag_force 0 drag_coeff area
   \<and> accel_of thrust (drag_force 0 drag_coeff area) mass
       = (if mass = 0 then Inl ZeroDivisionError else Inr ((thrust - mass * GRAVITY) / mass))
   \<and> (0 \<le> altitude \<and> mass \<noteq> 0 \<and> interp_thrust thrust_curve t = Inr thrust \<longrightarrow>
        sim_loop thrust_curve mass drag_coeff area evs t 0 altitude data out h =
          (let accel = (thrust - mass * GRAVITY) / mass;
               altitude' = altitude + accel * dt * dt;
               state = \<lparr>st_time = t + dt, st_altitude = (if altitude' < 0 then 0 else altitude'),
                        st_velocity = accel * dt, st_acceleration = accel\<rparr>;
               r = run_events evs state h;
               out' = out @ event_lines (snd r) state (fst r)
           in if t + dt > 300 then Inr (data @ [state], out' @ [TimeoutReached], snd r)
              else sim_loop thrust_curve mass drag_coeff area evs (t + dt) (accel * dt)
                     (st_altitude state) (data @ [state]) out' (snd r)))"
proof (intro conjI impI)
  show "drag_force 0 drag_coeff area = 0"
    by (rule drag_force_zero)
  show "0.5 * AIR_DENSITY * 0\<^sup>2 * drag_coeff * area * factor = drag_force 0 drag_coeff area"
    by (simp add: drag_force_zero)
  show "accel_of thrust (drag_force 0 drag_coeff area) mass
       = (if mass = 0 then Inl ZeroDivisionError else Inr ((thrust - mass * GRAVITY) / mass))"
    by (simp add: drag_force_zero accel_of_def)
next
  assume a: "0 \<le> altitude \<and> mass \<noteq> 0 \<and> interp_thrust thrust_curve t = Inr thrust"
  then have a1: "0 \<le> altitude" and a2: "interp_thrust thrust_curve t = Inr thrust" and a3: "mass \<noteq> 0"
    by simp_all
  have s: "step_sample thrust mass drag_coeff area t 0 altitude =
      \<lparr>st_time = t + dt,
       st_altitude = (if altitude + (thrust - mass * GRAVITY) / mass * dt * dt < 0 then 0
                      else altitude + (thrust - mass * GRAVITY) / mass * dt * dt),
       st_velocity = (thrust - mass * GRAVITY) / mass * dt,
       st_acceleration = (thrust - mass * GRAVITY) / mass\<rparr>"
    by (simp add: step_sample_def drag_force_zero Let_def)
  show "sim_loop thrust_curve mass drag_coeff area evs t 0 altitude data out h =
          (let accel = (thrust - mass * GRAVITY) / mass;
               altitude' = altitude + accel * dt * dt;
               state = \<lparr>st_time = t + dt, st_altitude = (if altitude' < 0 then 0 else altitude'),
                        st_velocity = accel * dt, st_acceleration = accel\<rparr>;
               r = run_events evs state h;
               out' = out @ event_lines (snd r) state (fst r)
           in if t + dt > 300 then Inr (data @ [state], out' @ [TimeoutReached], snd r)
              else sim_loop thrust_curve mass drag_coeff area evs (t + dt) (accel * dt)
                     (st_altitude state) (data @ [state]) out' (snd r))"
    unfolding sim_loop_step[OF a1 a2 a3] s Let_def by simp
qed

theorem drag_zero_at_rest_witness:
  "(0 :: real) \<le> 0 \<and> (0.5 :: real) \<noteq> 0 \<and> interp_thrust [(0, 12), (1.6, 0)] 0 = Inr 12
   \<and> sim_loop [(0, 12), (1.6, 0)] 0.5 0.75 1 [] 0 0 0 [] [] parachute_store =
       sim_loop [(0, 12), (1.6, 0)] 0.5 0.75 1 [] dt ((12 - 0.5 * GRAVITY) / 0.5 * dt)
         ((12 - 0.5 * GRAVITY) / 0.5 * dt * dt)
         [\<lparr>st_time = dt, st_altitude = (12 - 0.5 * GRAVITY) / 0.5 * dt * dt,
           st_velocity = (12 - 0.5 * GRAVITY) / 0.5 * dt,
           st_acceleration = (12 - 0.5 * GRAVITY) / 0.5\<rparr>] [] parachute_store"
proof -
  have i: "interp_thrust [(0, 12), (1.6, 0)] 0 = Inr 12"
    by (simp add: interp_thrust_def)
  have p: "\<not> (12 - 0.5 * GRAVITY) / 0.5 * dt * dt < 0" "\<not> 300 < dt"
    by (simp_all add: GRAVITY_def dt_def)
  show ?thesis
    using drag_zero_at_rest[where drag_coeff = "0.75" and area = 1 and thrust = 12 and mass = "0.5"
        and altitude = 0 and thrust_curve = "[(0, 12), (1.6, 0)]" and t = 0 and evs = "[]"
        and data = "[]" and out = "[]" and h = parachute_store] i p
    by (simp add: Let_def event_lines_def)
qed

end
